theory Spec2Isabelle
  imports Main "HOL-Library.Char_ord" "HOL-Library.List_Lexorder" "HOL-Library.Multiset"
    "HOL-Library.Word"
begin

section \<open>Run-time values\<close>

text \<open>
  The functions of \<^verbatim>\<open>src/index.ts\<close> take arguments of type \<^verbatim>\<open>unknown\<close>, so the
  embedding starts with a datatype of JavaScript values.  It carries what the functions
  observe and nothing more:

  \<^item> a number is the not-a-number sentinel, one of the two infinities, or a finite number.
    Finite numbers are the integers from \<open>- 2\<^sup>5\<^sup>3\<close> to \<open>2\<^sup>5\<^sup>3 - 1\<close> (everything the
    repository's fixtures and counters use), held in a 54-bit word that is read as a signed
    integer.  Each of them is a JavaScript number, and JavaScript prints it as its decimal
    numeral;
  \<^item> a string is a list of code units (\<^typ>\<open>char\<close>, so code units below 256), ordered
    code unit by code unit as JavaScript orders strings;
  \<^item> a symbol and a function are known by their identity only; a function also carries
    the text \<^verbatim>\<open>String(f)\<close> prints.  The eleven functions that every object inherits
    from \<^verbatim>\<open>Object.prototype\<close> have names of their own;
  \<^item> an array is the list of its slots, where \<open>None\<close> is a hole (an index below the
    length that the array has no property for, as in \<^verbatim>\<open>new Array(2)\<close>) and
    \<open>Some v\<close> is an element;
  \<^item> any other object has a class, which answers \<^verbatim>\<open>instanceof\<close>, and the list of its
    own enumerable string-keyed data properties in the order \<^verbatim>\<open>Object.keys\<close> lists them.
    Objects here do not redefine \<^verbatim>\<open>toString\<close> or \<^verbatim>\<open>valueOf\<close> behaviour, have no
    accessors and are not proxies.

  Object identity is not part of a value: no function of the file compares two objects
  with \<^verbatim>\<open>===\<close> (see \<open>areEqual\<close> below).
\<close>

datatype jsnum = NaN | PosInfinity | NegInfinity | Finite "54 word"

text \<open>
  The built-in functions found through \<^verbatim>\<open>Object.prototype\<close>: the constructor
  \<^verbatim>\<open>Object\<close> and the ten methods.
\<close>

datatype builtin =
    Object_function
  | Proto_hasOwnProperty
  | Proto_isPrototypeOf
  | Proto_propertyIsEnumerable
  | Proto_toLocaleString
  | Proto_toString
  | Proto_valueOf
  | Proto_defineGetter
  | Proto_defineSetter
  | Proto_lookupGetter
  | Proto_lookupSetter

datatype funref =
    Builtin builtin     \<comment> \<open>one of the functions above\<close>
  | Closure nat string  \<comment> \<open>any other function: its identity and the text \<^verbatim>\<open>String(f)\<close> prints\<close>

datatype objclass =
    Plain                 \<comment> \<open>an ordinary object, \<^verbatim>\<open>{}\<close>\<close>
  | DateObj string        \<comment> \<open>a Date, with the text \<^verbatim>\<open>String(d)\<close> prints\<close>
  | MapObj
  | SetObj
  | PromiseObj
  | RegExpObj string string   \<comment> \<open>a RegExp: source and flags\<close>

datatype jsval =
    VUndefined
  | VNull
  | VBool bool
  | VNum jsnum
  | VStr string
  | VBigInt int
  | VSymbol nat
  | VFunction funref
  | VArr "jsval option list"
  | VObj objclass "(string \<times> jsval) list"

datatype error = TypeError

subsection \<open>Native operators\<close>

text \<open>The operator \<^verbatim>\<open>typeof\<close>.\<close>

fun typeof :: "jsval \<Rightarrow> string" where
  "typeof VUndefined = ''undefined''"
| "typeof VNull = ''object''"
| "typeof (VBool _) = ''boolean''"
| "typeof (VNum _) = ''number''"
| "typeof (VStr _) = ''string''"
| "typeof (VBigInt _) = ''bigint''"
| "typeof (VSymbol _) = ''symbol''"
| "typeof (VFunction _) = ''function''"
| "typeof (VArr _) = ''object''"
| "typeof (VObj _ _) = ''object''"

text \<open>\<^verbatim>\<open>Number.isNaN\<close> and \<^verbatim>\<open>Number.isFinite\<close>: both are false on a value that is not a number.\<close>

fun Number_isNaN :: "jsval \<Rightarrow> bool" where
  "Number_isNaN (VNum NaN) = True"
| "Number_isNaN _ = False"

fun Number_isFinite :: "jsval \<Rightarrow> bool" where
  "Number_isFinite (VNum (Finite _)) = True"
| "Number_isFinite _ = False"

fun Array_isArray :: "jsval \<Rightarrow> bool" where
  "Array_isArray (VArr _) = True"
| "Array_isArray _ = False"

text \<open>\<^verbatim>\<open>value instanceof C\<close> for the five constructors the classifier asks about.\<close>

datatype ctor = Date | Map | Set | Promise | RegExp

fun instanceof :: "jsval \<Rightarrow> ctor \<Rightarrow> bool" where
  "instanceof (VObj (DateObj _) _) Date = True"
| "instanceof (VObj MapObj _) Map = True"
| "instanceof (VObj SetObj _) Set = True"
| "instanceof (VObj PromiseObj _) Promise = True"
| "instanceof (VObj (RegExpObj _ _) _) RegExp = True"
| "instanceof _ _ = False"

subsection \<open>Arrays and their holes\<close>

text \<open>
  \<^verbatim>\<open>xs[i]\<close> reads \<^verbatim>\<open>undefined\<close>, here \<open>None\<close>, past the end and at a hole.
  \<^verbatim>\<open>xs.map(f)\<close> keeps the holes where they are.  \<^verbatim>\<open>xs.forEach(f)\<close> and
  \<^verbatim>\<open>xs.filter(f)\<close> visit the elements and skip the holes.  The iterator of an array,
  which \<^verbatim>\<open>new Set(xs)\<close> and \<^verbatim>\<open>[...xs]\<close> use, reads every index below the length, so it
  yields \<^verbatim>\<open>undefined\<close> at a hole.
\<close>

definition Array_get :: "'a option list \<Rightarrow> nat \<Rightarrow> 'a option" where
  "Array_get xs i = (if i < length xs then xs ! i else None)"

definition Array_map :: "('a \<Rightarrow> 'b) \<Rightarrow> 'a option list \<Rightarrow> 'b option list" where
  "Array_map f xs = map (map_option f) xs"

fun present :: "'a option list \<Rightarrow> 'a list" where
  "present [] = []"
| "present (None # xs) = present xs"
| "present (Some v # xs) = v # present xs"

definition Array_filter :: "('a \<Rightarrow> bool) \<Rightarrow> 'a option list \<Rightarrow> 'a list" where
  "Array_filter p xs = filter p (present xs)"

definition Array_iterate :: "'a option list \<Rightarrow> 'a option list" where
  "Array_iterate xs = map (\<lambda>i. Array_get xs i) [0..<length xs]"

definition holes :: "'a option list \<Rightarrow> nat" where
  "holes xs = length (filter (\<lambda>x. x = None) xs)"

section \<open>Text of a value and the default sort\<close>

text \<open>
  \<^verbatim>\<open>Array.prototype.sort\<close> without a comparator compares the texts of the elements, so
  both files need the abstract operation ToString.  A number prints as \<^verbatim>\<open>NaN\<close>,
  \<^verbatim>\<open>Infinity\<close>, \<^verbatim>\<open>-Infinity\<close> or its decimal numeral; a BigInt prints as its decimal
  numeral.
\<close>

function dec :: "nat \<Rightarrow> string" where
  "dec n = (if n < 10 then [''0123456789'' ! n]
            else dec (n div 10) @ [''0123456789'' ! (n mod 10)])"
  by pat_completeness auto
termination
  by (relation "measure (\<lambda>n. n)") auto

declare dec.simps [simp del]

definition int_text :: "int \<Rightarrow> string" where
  "int_text i = (if i < 0 then ''-'' @ dec (nat (- i)) else dec (nat i))"

fun Number_toString :: "jsnum \<Rightarrow> string" where
  "Number_toString NaN = ''NaN''"
| "Number_toString PosInfinity = ''Infinity''"
| "Number_toString NegInfinity = ''-Infinity''"
| "Number_toString (Finite w) = int_text (sint w)"

text \<open>
  ToString throws a TypeError on a symbol.  The text of an array is the text of its
  slots joined by commas, where holes and \<^verbatim>\<open>undefined\<close> and \<^verbatim>\<open>null\<close> elements give
  the empty text.
\<close>

fun builtin_name :: "builtin \<Rightarrow> string" where
  "builtin_name Object_function = ''Object''"
| "builtin_name Proto_hasOwnProperty = ''hasOwnProperty''"
| "builtin_name Proto_isPrototypeOf = ''isPrototypeOf''"
| "builtin_name Proto_propertyIsEnumerable = ''propertyIsEnumerable''"
| "builtin_name Proto_toLocaleString = ''toLocaleString''"
| "builtin_name Proto_toString = ''toString''"
| "builtin_name Proto_valueOf = ''valueOf''"
| "builtin_name Proto_defineGetter = ''__defineGetter__''"
| "builtin_name Proto_defineSetter = ''__defineSetter__''"
| "builtin_name Proto_lookupGetter = ''__lookupGetter__''"
| "builtin_name Proto_lookupSetter = ''__lookupSetter__''"

fun Function_toString :: "funref \<Rightarrow> string" where
  "Function_toString (Builtin f) = ''function '' @ builtin_name f @ ''() { [native code] }''"
| "Function_toString (Closure _ src) = src"

fun Object_toString :: "objclass \<Rightarrow> string" where
  "Object_toString Plain = ''[object Object]''"
| "Object_toString (DateObj s) = s"
| "Object_toString MapObj = ''[object Map]''"
| "Object_toString SetObj = ''[object Set]''"
| "Object_toString PromiseObj = ''[object Promise]''"
| "Object_toString (RegExpObj src flags) = ''/'' @ src @ ''/'' @ flags"

fun ToString :: "jsval \<Rightarrow> error + string"
  and join :: "jsval option list \<Rightarrow> error + string" where
  "ToString VUndefined = Inr ''undefined''"
| "ToString VNull = Inr ''null''"
| "ToString (VBool b) = Inr (if b then ''true'' else ''false'')"
| "ToString (VNum n) = Inr (Number_toString n)"
| "ToString (VStr s) = Inr s"
| "ToString (VBigInt i) = Inr (int_text i)"
| "ToString (VSymbol _) = Inl TypeError"
| "ToString (VFunction f) = Inr (Function_toString f)"
| "ToString (VArr xs) = join xs"
| "ToString (VObj c _) = Inr (Object_toString c)"
| "join [] = Inr []"
| "join (x # xs) =
     (case (case x of
              None \<Rightarrow> Inr []
            | Some v \<Rightarrow> if v = VUndefined \<or> v = VNull then Inr [] else ToString v) of
        Inl e \<Rightarrow> Inl e
      | Inr s \<Rightarrow>
          (if xs = [] then Inr s
           else case join xs of Inl e \<Rightarrow> Inl e | Inr r \<Rightarrow> Inr (s @ '','' @ r)))"

definition text_of :: "jsval \<Rightarrow> string" where
  "text_of v = (case ToString v of Inl _ \<Rightarrow> [] | Inr s \<Rightarrow> s)"

subsection \<open>Sorting an array\<close>

text \<open>
  \<^verbatim>\<open>xs.sort()\<close>, for an array without holes (the files sort only the copies that
  \<^verbatim>\<open>[...a]\<close> and \<^verbatim>\<open>Object.entries\<close> make, which have none): the \<^verbatim>\<open>undefined\<close> elements
  go to the end without being compared; the others are ordered by their texts, stably.
  With two or more elements to compare, each of them is converted to text at least once,
  so a symbol among them throws; with fewer than two nothing is compared and nothing is
  thrown.
\<close>

definition Array_sort :: "jsval list \<Rightarrow> error + jsval list" where
  "Array_sort xs =
     (let defined = filter (\<lambda>v. v \<noteq> VUndefined) xs;
          undefineds = filter (\<lambda>v. v = VUndefined) xs
      in if length defined < 2 then Inr (defined @ undefineds)
         else if list_ex (\<lambda>v. ToString v = Inl TypeError) defined then Inl TypeError
         else Inr (sort_key text_of defined @ undefineds))"

section \<open>The type functions of \<^verbatim>\<open>src/index.ts\<close>\<close>

definition getType :: "jsval \<Rightarrow> string" where
  "getType v = typeof v"

definition getTypesOfItems :: "jsval option list \<Rightarrow> string option list" where
  "getTypesOfItems arr = Array_map (\<lambda>v. getType v) arr"

text \<open>
  \<^verbatim>\<open>typesArr[0]\<close> is \<^verbatim>\<open>undefined\<close> when the array is empty or starts with a hole, and a
  string is never \<^verbatim>\<open>===\<close> to \<^verbatim>\<open>undefined\<close>.
\<close>

definition allItemsHaveTheSameType :: "jsval option list \<Rightarrow> bool" where
  "allItemsHaveTheSameType arr =
     (let typesArr = getTypesOfItems arr
      in length (Array_filter (\<lambda>t. Some t \<noteq> Array_get typesArr 0) typesArr) = 0)"

definition getRealType :: "jsval \<Rightarrow> string" where
  "getRealType v =
     (if typeof v = ''number'' then
        (if Number_isNaN v then ''NaN''
         else if \<not> Number_isFinite v then ''Infinity''
         else ''number'')
      else if typeof v = ''object'' then
        (if Array_isArray v then ''array''
         else if v = VNull then ''null''
         else if instanceof v Date then ''date''
         else if instanceof v Map then ''map''
         else if instanceof v Set then ''set''
         else if instanceof v Promise then ''promise''
         else if instanceof v RegExp then ''regexp''
         else typeof v)
      else typeof v)"

definition getRealTypesOfItems :: "jsval option list \<Rightarrow> string option list" where
  "getRealTypesOfItems arr = Array_map (\<lambda>v. getRealType v) arr"

text \<open>
  \<^verbatim>\<open>new Set(typesArr)\<close> adds what the iterator of the array yields, one by one, and keeps
  the first of equal ones; \<^verbatim>\<open>.size\<close> is the number of elements kept.  What the iterator
  yields is a label or, at a hole, \<^verbatim>\<open>undefined\<close>.
\<close>

definition Set_add :: "'a list \<Rightarrow> 'a \<Rightarrow> 'a list" where
  "Set_add s x = (if x \<in> set s then s else s @ [x])"

definition new_Set :: "'a list \<Rightarrow> 'a list" where
  "new_Set xs = foldl Set_add [] xs"

definition everyItemHasAUniqueRealType :: "jsval option list \<Rightarrow> bool" where
  "everyItemHasAUniqueRealType arr =
     (let typesArr = getRealTypesOfItems arr
      in length typesArr = length (new_Set (Array_iterate typesArr)))"

subsection \<open>The frequency counter\<close>

text \<open>
  The object \<^verbatim>\<open>types\<close> is a list of (key, count) pairs in the order the keys were
  created, which is the order \<^verbatim>\<open>Object.entries\<close> lists string keys that are not array
  indices.  \<^verbatim>\<open>types[type] ?? 0\<close> reads 0 for a key not yet there; the assignment
  overwrites the count of a key in place and appends a new key.  The keys are labels of
  \<open>getRealType\<close>: none of them is an array index, and none is the name of a property
  that the fresh object \<^verbatim>\<open>{}\<close> inherits (\<open>labels_not_indices\<close> and
  \<open>labels_not_inherited\<close> below), so a label not yet counted reads \<^verbatim>\<open>undefined\<close>.
  \<^verbatim>\<open>typesArr.forEach\<close> runs the step on the labels present and skips the holes.
\<close>

type_synonym countObj = "(string \<times> nat) list"

definition nullish :: "'a option \<Rightarrow> 'a \<Rightarrow> 'a" where
  "nullish x d = (case x of None \<Rightarrow> d | Some y \<Rightarrow> y)"

fun assign :: "countObj \<Rightarrow> string \<Rightarrow> nat \<Rightarrow> countObj" where
  "assign [] k n = [(k, n)]"
| "assign ((k', n') # ps) k n = (if k' = k then (k, n) # ps else (k', n') # assign ps k n)"

definition count_step :: "countObj \<Rightarrow> string \<Rightarrow> countObj" where
  "count_step types t = assign types t (nullish (map_of types t) 0 + 1)"

definition Object_entries :: "countObj \<Rightarrow> (string \<times> nat) list" where
  "Object_entries types = types"

text \<open>
  What \<^verbatim>\<open>countRealTypes\<close> returns: \<^verbatim>\<open>null\<close>, a number (the older file returns 0), or a
  table of (label, count) rows.
\<close>

datatype count_result = RNull | RNumber int | RTable "(string \<times> nat) list"

definition countRealTypes :: "jsval option list \<Rightarrow> count_result" where
  "countRealTypes arr =
     (if length arr = 0 then RNull
      else let typesArr = getRealTypesOfItems arr;
               types = foldl count_step [] (present typesArr)
           in RTable (Object_entries types))"

subsection \<open>The frequency counter of the older file\<close>

text \<open>
  The older file \<^verbatim>\<open>src/unnamed/part_000\<close> holds the same function with two differences:
  it returns 0 for the empty array, and it sorts the entries before returning them.
  \<^verbatim>\<open>entries.sort()\<close> has no comparator, so it orders the entries by their text, and the
  text of the array holding a label and a count is the label, a comma and the count.
  The sort is stable.  A count is at most the length of the array, which in JavaScript
  is below \<open>2\<^sup>3\<^sup>2\<close>, so it is one of the finite numbers above.
\<close>

definition entry_text :: "string \<times> nat \<Rightarrow> string" where
  "entry_text e = fst e @ '','' @ Number_toString (Finite (of_nat (snd e)))"

definition entries_sort :: "(string \<times> nat) list \<Rightarrow> (string \<times> nat) list" where
  "entries_sort entries = sort_key entry_text entries"

definition countRealTypes_part_000 :: "jsval option list \<Rightarrow> count_result" where
  "countRealTypes_part_000 arr =
     (if length arr = 0 then RNumber 0
      else let typesArr = getRealTypesOfItems arr;
               types = foldl count_step [] (present typesArr);
               entries = Object_entries types
           in RTable (entries_sort entries))"

section \<open>The comparator \<^verbatim>\<open>areEqual\<close> of \<^verbatim>\<open>src/index.ts\<close>\<close>

subsection \<open>Objects as property lists\<close>

text \<open>
  \<^verbatim>\<open>{ ...a }\<close> is a fresh ordinary object with the own enumerable properties of
  \<^verbatim>\<open>a\<close>: the indexed elements of an array (a hole is no property) or of a string, the
  properties of an object, none for the other values.
\<close>

fun indexed :: "nat \<Rightarrow> 'a option list \<Rightarrow> (string \<times> 'a) list" where
  "indexed i [] = []"
| "indexed i (None # xs) = indexed (Suc i) xs"
| "indexed i (Some v # xs) = (dec i, v) # indexed (Suc i) xs"

fun spread :: "jsval \<Rightarrow> (string \<times> jsval) list" where
  "spread (VArr xs) = indexed 0 xs"
| "spread (VObj c ps) = ps"
| "spread (VStr s) = indexed 0 (map (\<lambda>c. Some (VStr [c])) s)"
| "spread _ = []"

definition Object_keys :: "(string \<times> jsval) list \<Rightarrow> string list" where
  "Object_keys ps = map fst ps"

text \<open>
  Reading a property of an ordinary object looks in the object first and in
  \<^verbatim>\<open>Object.prototype\<close> next.  \<^verbatim>\<open>Object.prototype\<close> holds the constructor \<^verbatim>\<open>Object\<close>,
  ten built-in methods, and the accessor \<^verbatim>\<open>__proto__\<close>, which yields the prototype of
  the object read: \<^verbatim>\<open>Object.prototype\<close> itself, an object with no enumerable property
  and the text of an ordinary object.  Any other name reads \<^verbatim>\<open>undefined\<close>.
\<close>

definition Object_prototype_functions :: "(string \<times> builtin) list" where
  "Object_prototype_functions =
     [(''constructor'', Object_function),
      (''hasOwnProperty'', Proto_hasOwnProperty),
      (''isPrototypeOf'', Proto_isPrototypeOf),
      (''propertyIsEnumerable'', Proto_propertyIsEnumerable),
      (''toLocaleString'', Proto_toLocaleString),
      (''toString'', Proto_toString),
      (''valueOf'', Proto_valueOf),
      (''__defineGetter__'', Proto_defineGetter),
      (''__defineSetter__'', Proto_defineSetter),
      (''__lookupGetter__'', Proto_lookupGetter),
      (''__lookupSetter__'', Proto_lookupSetter)]"

definition Object_prototype :: "string \<Rightarrow> jsval" where
  "Object_prototype k =
     (case map_of Object_prototype_functions k of
        Some f \<Rightarrow> VFunction (Builtin f)
      | None \<Rightarrow> if k = ''__proto__'' then VObj Plain [] else VUndefined)"

definition get_prop :: "(string \<times> jsval) list \<Rightarrow> string \<Rightarrow> jsval" where
  "get_prop ps k = (case map_of ps k of Some v \<Rightarrow> v | None \<Rightarrow> Object_prototype k)"

text \<open>
  \<^verbatim>\<open>[...a]\<close> is a fresh array of what the iterator of \<^verbatim>\<open>a\<close> yields: it has no hole,
  and \<^verbatim>\<open>undefined\<close> where \<^verbatim>\<open>a\<close> has one.  The comparator takes it of arrays only.
\<close>

definition value_of :: "jsval option \<Rightarrow> jsval" where
  "value_of x = (case x of None \<Rightarrow> VUndefined | Some v \<Rightarrow> v)"

fun elements :: "jsval \<Rightarrow> jsval list" where
  "elements (VArr xs) = map value_of (Array_iterate xs)"
| "elements _ = []"

text \<open>\<^verbatim>\<open>xs[i]\<close> on an array without holes: \<^verbatim>\<open>undefined\<close> past the end.\<close>

definition at_index :: "'a list \<Rightarrow> nat \<Rightarrow> 'a option" where
  "at_index xs i = (if i < length xs then Some (xs ! i) else None)"

definition read_index :: "jsval list \<Rightarrow> nat \<Rightarrow> jsval" where
  "read_index xs i = value_of (at_index xs i)"

subsection \<open>Strict equality\<close>

text \<open>
  \<^verbatim>\<open>a === b\<close>: values of different types are different, NaN differs from everything,
  and an array or object differs from every value that is not an object.  Two objects
  are \<^verbatim>\<open>===\<close> when they are the same object; values carry no identity, and the equation
  for two objects below is never used: \<open>areEqual\<close> reaches \<^verbatim>\<open>===\<close> only when one
  of the operands is not an object or is \<^verbatim>\<open>null\<close>.
\<close>

fun strict_equals :: "jsval \<Rightarrow> jsval \<Rightarrow> bool" where
  "strict_equals (VArr _) _ = False"
| "strict_equals (VObj _ _) _ = False"
| "strict_equals _ (VArr _) = False"
| "strict_equals _ (VObj _ _) = False"
| "strict_equals (VNum NaN) _ = False"
| "strict_equals a b = (a = b)"

subsection \<open>The comparator\<close>

text \<open>
  \<^verbatim>\<open>xs.every(f)\<close> calls \<^verbatim>\<open>f\<close> on the elements in order and stops at the first
  \<^verbatim>\<open>false\<close>, or at the first call that throws.
\<close>

fun every :: "('a \<Rightarrow> error + bool) \<Rightarrow> 'a list \<Rightarrow> error + bool" where
  "every f [] = Inr True"
| "every f (x # xs) =
     (case f x of Inl e \<Rightarrow> Inl e | Inr ok \<Rightarrow> if ok then every f xs else Inr False)"

lemma every_cong [fundef_cong]:
  "xs = ys \<Longrightarrow> (\<And>x. x \<in> set ys \<Longrightarrow> f x = g x) \<Longrightarrow> every f xs = every g ys"
  by (induction ys arbitrary: xs) (auto split: sum.splits)

function areEqual :: "jsval \<Rightarrow> jsval \<Rightarrow> error + bool" where
  "areEqual a b =
     (if typeof a = ''object'' \<and> typeof b = ''object'' \<and> a \<noteq> VNull \<and> b \<noteq> VNull then
        (if Array_isArray a \<and> Array_isArray b then
           (case Array_sort (elements a) of
              Inl e \<Rightarrow> Inl e
            | Inr sortedA \<Rightarrow>
                (case Array_sort (elements b) of
                   Inl e \<Rightarrow> Inl e
                 | Inr sortedB \<Rightarrow>
                     every (\<lambda>(value, index). areEqual value (read_index sortedB index))
                       (zip sortedA [0..<length sortedA])))
         else
           (let newA = spread a; newB = spread b
            in every (\<lambda>value. areEqual (get_prop newA value) (get_prop newB value))
                 (Object_keys newA)))
      else Inr (strict_equals a b))"
  by pat_completeness auto

lemma Array_sort_set: "Array_sort xs = Inr ys \<Longrightarrow> set ys = set xs"
  by (auto simp: Array_sort_def Let_def split: if_splits)

lemma Array_iterate_id: "Array_iterate xs = xs"
  unfolding Array_iterate_def Array_get_def by (rule nth_equalityI) simp_all

lemma size_element: "Some x \<in> set xs \<Longrightarrow> size x < size (VArr xs)"
  by (induction xs) auto

lemma set_indexed: "(k, v) \<in> set (indexed i xs) \<Longrightarrow> Some v \<in> set xs"
  by (induction i xs rule: indexed.induct) auto

lemma size_property: "(k, v) \<in> set ps \<Longrightarrow> size v < size (VObj c ps)"
  by (induction ps) auto

lemma get_prop_own: "k \<in> set (Object_keys ps) \<Longrightarrow> (k, get_prop ps k) \<in> set ps"
  by (auto simp: Object_keys_def get_prop_def map_of_eq_None_iff
           split: option.splits dest: map_of_SomeD)

lemma size_spread:
  assumes "typeof a = ''object''" and "a \<noteq> VNull" and "(k, v) \<in> set (spread a)"
  shows "size v < size a"
proof (cases a)
  case (VArr xs)
  with assms(3) have "Some v \<in> set xs" by (auto dest: set_indexed)
  with VArr show ?thesis using size_element by auto
next
  case (VObj c ps)
  with assms(3) show ?thesis using size_property by auto
qed (use assms in auto)

termination areEqual
proof (relation "measure (\<lambda>(a, b). size a)", goal_cases)
  case 1
  show ?case by simp
next
  case (2 a b sortedA sortedB x v i)
  then obtain xs where a: "a = VArr xs" by (cases a) auto
  from 2 have "v \<in> set sortedA" by (auto dest: set_zip_leftD)
  with 2 a have "v \<in> value_of ` set xs"
    by (auto dest!: Array_sort_set simp: Array_iterate_id)
  then obtain x' where x': "x' \<in> set xs" and v: "v = value_of x'" by blast
  have "size v < size (VArr xs)"
  proof (cases x')
    case None
    with v show ?thesis by (simp add: value_of_def)
  next
    case (Some w)
    with v x' show ?thesis using size_element [of w xs] by (simp add: value_of_def)
  qed
  with a show ?case by simp
next
  case (3 a b newA newB k)
  then show ?case
    by (auto dest!: get_prop_own dest: size_spread)
qed

declare areEqual.simps [simp del]

section \<open>Definitions used to state the properties\<close>

text \<open>
  The specification lists the decisions of the classifier as ordered rules, the first
  matching rule giving the label.  \<open>classify_rules\<close> is that list, written from the
  specification; \<open>classify_spec\<close> takes the first rule that matches, and the native
  type tag when none does.
\<close>

definition classify_rules :: "((jsval \<Rightarrow> bool) \<times> string) list" where
  "classify_rules =
     [(\<lambda>v. typeof v = ''number'' \<and> Number_isNaN v, ''NaN''),
      (\<lambda>v. typeof v = ''number'' \<and> \<not> Number_isFinite v, ''Infinity''),
      (\<lambda>v. typeof v = ''number'', ''number''),
      (\<lambda>v. typeof v = ''object'' \<and> Array_isArray v, ''array''),
      (\<lambda>v. typeof v = ''object'' \<and> v = VNull, ''null''),
      (\<lambda>v. typeof v = ''object'' \<and> instanceof v Date, ''date''),
      (\<lambda>v. typeof v = ''object'' \<and> instanceof v Map, ''map''),
      (\<lambda>v. typeof v = ''object'' \<and> instanceof v Set, ''set''),
      (\<lambda>v. typeof v = ''object'' \<and> instanceof v Promise, ''promise''),
      (\<lambda>v. typeof v = ''object'' \<and> instanceof v RegExp, ''regexp''),
      (\<lambda>v. typeof v = ''object'', ''object'')]"

definition classify_spec :: "jsval \<Rightarrow> string" where
  "classify_spec v =
     (case find (\<lambda>rule. fst rule v) classify_rules of
        Some rule \<Rightarrow> snd rule
      | None \<Rightarrow> typeof v)"

text \<open>The labels \<open>getRealType\<close> can return.\<close>

definition labels :: "string list" where
  "labels = [''NaN'', ''Infinity'', ''number'', ''array'', ''null'', ''date'', ''map'', ''set'',
             ''promise'', ''regexp'', ''object'', ''undefined'', ''boolean'', ''string'',
             ''bigint'', ''symbol'', ''function'']"

text \<open>
  Two strings diverge when they differ at a position both have, so that neither is a
  prefix of the other and their order is decided before either ends.
\<close>

fun diverge :: "string \<Rightarrow> string \<Rightarrow> bool" where
  "diverge (a # as) (b # bs) = (a \<noteq> b \<or> diverge as bs)"
| "diverge _ _ = False"

text \<open>
  A row of a table and a result of the counter as JavaScript values: a row is the array
  of its label and its count.
\<close>

definition entry_value :: "string \<times> nat \<Rightarrow> jsval" where
  "entry_value e = VArr [Some (VStr (fst e)), Some (VNum (Finite (of_nat (snd e))))]"

fun result_value :: "count_result \<Rightarrow> jsval" where
  "result_value RNull = VNull"
| "result_value (RNumber n) = VNum (Finite (of_int n))"
| "result_value (RTable t) = VArr (map (\<lambda>e. Some (entry_value e)) t)"

text \<open>
  The values a property read on the empty object \<^verbatim>\<open>{}\<close> can give: \<^verbatim>\<open>undefined\<close>, a
  built-in function, or \<^verbatim>\<open>Object.prototype\<close>.
\<close>

definition inherited_value :: "jsval \<Rightarrow> bool" where
  "inherited_value b \<longleftrightarrow> b = VUndefined \<or> b = VObj Plain [] \<or> (\<exists>f. b = VFunction f)"

section \<open>Properties of the classifier\<close>

text \<open>
  Claim C5.  For every value whose native type tag is \<^verbatim>\<open>number\<close>: the label is
  \<^verbatim>\<open>NaN\<close> exactly when the value is the not-a-number sentinel, \<^verbatim>\<open>Infinity\<close> exactly
  when it is not NaN and not finite, and \<^verbatim>\<open>number\<close> in the remaining case.
\<close>

theorem getRealType_numeric:
  assumes "typeof v = ''number''"
  shows "(getRealType v = ''NaN'' \<longleftrightarrow> v = VNum NaN) \<and>
         (getRealType v = ''Infinity'' \<longleftrightarrow> v \<noteq> VNum NaN \<and> \<not> Number_isFinite v) \<and>
         (getRealType v = ''number'' \<longleftrightarrow> v \<noteq> VNum NaN \<and> Number_isFinite v)"
proof (cases v)
  case (VNum n)
  then show ?thesis by (cases n) (simp_all add: getRealType_def)
qed (use assms in simp_all)

theorem getRealType_numeric_witness:
  "typeof (VNum NegInfinity) = ''number'' \<and> getRealType (VNum NegInfinity) = ''Infinity'' \<and>
   typeof (VNum NaN) = ''number'' \<and> getRealType (VNum NaN) = ''NaN'' \<and>
   typeof (VNum (Finite 42)) = ''number'' \<and> getRealType (VNum (Finite 42)) = ''number''"
  using getRealType_numeric [of "VNum NegInfinity"] getRealType_numeric [of "VNum NaN"]
    getRealType_numeric [of "VNum (Finite 42)"]
  by simp

text \<open>
  Claim C6.  The classifier computes the first matching rule of the priority list, so a
  value that matches an earlier rule never gets the label of a later one; in particular
  every array is labelled \<^verbatim>\<open>array\<close> and never \<^verbatim>\<open>object\<close>.
\<close>

theorem getRealType_first_match:
  "getRealType v = classify_spec v \<and>
   (Array_isArray v \<longrightarrow> getRealType v = ''array'' \<and> getRealType v \<noteq> ''object'')"
  by (simp add: getRealType_def classify_spec_def classify_rules_def) (cases v; simp)

theorem getRealType_first_match_witness:
  "Array_isArray (VArr [Some (VNum (Finite 1)), Some (VNum (Finite 2)), Some (VNum (Finite 3))]) \<and>
   getRealType (VArr [Some (VNum (Finite 1)), Some (VNum (Finite 2)), Some (VNum (Finite 3))])
     = ''array'' \<and>
   classify_spec (VArr [Some (VNum (Finite 1)), Some (VNum (Finite 2)), Some (VNum (Finite 3))])
     = ''array''"
  using getRealType_first_match
    [of "VArr [Some (VNum (Finite 1)), Some (VNum (Finite 2)), Some (VNum (Finite 3))]"]
  by auto

text \<open>Every label is one of the seventeen of \<open>labels\<close>.\<close>

lemma getRealType_label: "getRealType v \<in> set labels"
proof (cases v)
  case (VNum n)
  then show ?thesis by (cases n) (simp_all add: getRealType_def labels_def)
next
  case (VObj c ps)
  then show ?thesis by (cases c) (simp_all add: getRealType_def labels_def)
qed (simp_all add: getRealType_def labels_def)

text \<open>
  No label starts with a digit, so none is an array index, and no label names a property
  of \<^verbatim>\<open>Object.prototype\<close>.
\<close>

lemma labels_not_indices: "\<forall>l\<in>set labels. l \<noteq> [] \<and> hd l \<notin> set ''0123456789''"
  by (simp add: labels_def)

lemma labels_not_inherited: "\<forall>l\<in>set labels. Object_prototype l = VUndefined"
  by (simp add: labels_def Object_prototype_def Object_prototype_functions_def)

section \<open>The two predicates on the empty array\<close>

text \<open>
  Claim C8.  On the empty array both predicates answer true:
  \<open>allItemsHaveTheSameType\<close> filters nothing out of an empty array of tags, and
  \<open>everyItemHasAUniqueRealType\<close> compares length 0 with size 0.
\<close>

theorem empty_sequence_predicates:
  "allItemsHaveTheSameType [] = True \<and> everyItemHasAUniqueRealType [] = True"
  by (simp add: allItemsHaveTheSameType_def everyItemHasAUniqueRealType_def
      getTypesOfItems_def getRealTypesOfItems_def new_Set_def
      Array_map_def Array_filter_def Array_iterate_def)

section \<open>The frequency counter\<close>

subsection \<open>What the counting loop computes\<close>

text \<open>
  One step of the loop either starts a new row with count 1 or adds 1 to the row of the
  label; the facts below follow the loop from any starting table.
\<close>

lemma count_step_Nil: "count_step [] k = [(k, 1)]"
  by (simp add: count_step_def nullish_def)

lemma count_step_Cons:
  "count_step ((k', n') # ps) k =
     (if k' = k then (k, n' + 1) # ps else (k', n') # count_step ps k)"
  by (simp add: count_step_def nullish_def)

lemma count_step_keys:
  "set (map fst (count_step ps k)) = insert k (set (map fst ps))"
proof (induction ps)
  case Nil
  show ?case by (simp add: count_step_Nil)
next
  case (Cons p ps)
  obtain k' n' where p: "p = (k', n')" by (cases p)
  show ?case
  proof (cases "k' = k")
    case True
    with p show ?thesis by (simp add: count_step_Cons)
  next
    case False
    with p Cons.IH show ?thesis by (simp add: count_step_Cons insert_commute)
  qed
qed

lemma count_step_distinct:
  "distinct (map fst ps) \<Longrightarrow> distinct (map fst (count_step ps k))"
proof (induction ps)
  case Nil
  show ?case by (simp add: count_step_Nil)
next
  case (Cons p ps)
  obtain k' n' where p: "p = (k', n')" by (cases p)
  show ?case
  proof (cases "k' = k")
    case True
    with Cons.prems p show ?thesis by (simp add: count_step_Cons)
  next
    case False
    have "k' \<notin> set (map fst (count_step ps k))"
      using Cons.prems p False by (simp only: count_step_keys) auto
    with Cons p False show ?thesis by (simp add: count_step_Cons)
  qed
qed

lemma count_step_lookup:
  "nullish (map_of (count_step ps k) l) 0 =
     nullish (map_of ps l) 0 + (if l = k then 1 else 0)"
  by (induction ps) (auto simp: count_step_Nil count_step_Cons nullish_def)

lemma count_step_sum:
  "sum_list (map snd (count_step ps k)) = Suc (sum_list (map snd ps))"
  by (induction ps) (auto simp: count_step_Nil count_step_Cons)

lemma count_step_positive:
  "\<forall>row\<in>set ps. 0 < snd row \<Longrightarrow> \<forall>row\<in>set (count_step ps k). 0 < snd row"
proof (induction ps)
  case Nil
  show ?case by (simp add: count_step_Nil)
next
  case (Cons p ps)
  obtain k' n' where p: "p = (k', n')" by (cases p)
  from Cons p show ?case by (cases "k' = k") (simp_all add: count_step_Cons)
qed

lemma tally_keys:
  "set (map fst (foldl count_step acc ls)) = set (map fst acc) \<union> set ls"
  by (induction ls arbitrary: acc) (auto simp: count_step_keys simp del: set_map)

lemma tally_distinct:
  "distinct (map fst acc) \<Longrightarrow> distinct (map fst (foldl count_step acc ls))"
  by (induction ls arbitrary: acc) (auto simp: count_step_distinct)

lemma tally_lookup:
  "nullish (map_of (foldl count_step acc ls) l) 0 =
     nullish (map_of acc l) 0 + count_list ls l"
  by (induction ls arbitrary: acc) (auto simp: count_step_lookup)

lemma tally_sum:
  "sum_list (map snd (foldl count_step acc ls)) = sum_list (map snd acc) + length ls"
  by (induction ls arbitrary: acc) (auto simp: count_step_sum)

lemma tally_positive:
  "\<forall>row\<in>set acc. 0 < snd row \<Longrightarrow> \<forall>row\<in>set (foldl count_step acc ls). 0 < snd row"
proof (induction ls arbitrary: acc)
  case Nil
  then show ?case by simp
next
  case (Cons l ls)
  from count_step_positive [OF Cons.prems] have "\<forall>row\<in>set (count_step acc l). 0 < snd row" .
  from Cons.IH [OF this] show ?case by simp
qed

lemma tally_rows:
  assumes "(l, c) \<in> set (foldl count_step [] ls)"
  shows "l \<in> set ls \<and> c = count_list ls l"
proof -
  let ?t = "foldl count_step [] ls"
  have d: "distinct (map fst ?t)" by (rule tally_distinct) simp
  from assms d have "map_of ?t l = Some c" by simp
  then have "nullish (map_of ?t l) 0 = c" by (simp add: nullish_def)
  moreover have "nullish (map_of ?t l) 0 = count_list ls l"
    by (simp only: tally_lookup) (simp add: nullish_def)
  ultimately have c: "c = count_list ls l" by simp
  from assms have "l \<in> set (map fst ?t)" by force
  then have "l \<in> set ls" by (simp only: tally_keys) simp
  with c show ?thesis by simp
qed

lemma tally_has_row:
  assumes "l \<in> set ls"
  shows "(l, count_list ls l) \<in> set (foldl count_step [] ls)"
proof -
  let ?t = "foldl count_step [] ls"
  from assms have "l \<in> set (map fst ?t)" by (simp only: tally_keys) simp
  then obtain c where "(l, c) \<in> set ?t" by auto
  with tally_rows [of l c ls] show ?thesis by simp
qed

text \<open>
  The elements \<^verbatim>\<open>forEach\<close> visits after \<^verbatim>\<open>map\<close> are the images of the elements present,
  and the holes are the slots that are left.
\<close>

lemma present_Array_map: "present (Array_map f xs) = map f (present xs)"
  by (induction xs rule: present.induct) (simp_all add: Array_map_def)

lemma length_present: "length (present xs) + holes xs = length xs"
  by (induction xs rule: present.induct) (simp_all add: holes_def)

lemma holes_Array_map: "holes (Array_map f xs) = holes xs"
  by (induction xs rule: present.induct) (simp_all add: holes_def Array_map_def)

lemma set_present: "v \<in> set (present xs) \<longleftrightarrow> Some v \<in> set xs"
  by (induction xs rule: present.induct) auto

text \<open>
  What holds of the table of \<^verbatim>\<open>src/index.ts\<close> on a non-empty array: the counts are
  positive and sum to the number of elements of the array, which is its length when it
  has no hole, and the labels are pairwise distinct.
\<close>

lemma countRealTypes_table:
  assumes "arr \<noteq> []"
  shows "\<exists>t. countRealTypes arr = RTable t \<and> sum_list (map snd t) + holes arr = length arr \<and>
             distinct (map fst t) \<and> (\<forall>row\<in>set t. 0 < snd row)"
proof -
  let ?t = "foldl count_step [] (present (getRealTypesOfItems arr))"
  from assms have "countRealTypes arr = RTable ?t"
    by (simp add: countRealTypes_def Let_def Object_entries_def)
  moreover have "sum_list (map snd ?t) + holes arr = length arr"
    by (simp add: tally_sum getRealTypesOfItems_def present_Array_map length_present)
  moreover have "distinct (map fst ?t)" by (rule tally_distinct) simp
  moreover have "\<forall>row\<in>set ?t. 0 < snd row" by (rule tally_positive) simp
  ultimately show ?thesis by blast
qed

text \<open>
  Claim C3.  \<open>countRealTypes\<close> of \<^verbatim>\<open>src/index.ts\<close> returns \<^verbatim>\<open>null\<close> on the empty
  array, which is not the empty table, and it returns a table exactly on the non-empty
  arrays.
\<close>

theorem countRealTypes_empty:
  "countRealTypes [] = RNull \<and> countRealTypes [] \<noteq> RTable [] \<and>
   ((\<exists>t. countRealTypes arr = RTable t) \<longleftrightarrow> arr \<noteq> [])"
  by (simp add: countRealTypes_def Let_def)

theorem countRealTypes_empty_witness:
  "[Some (VBool True)] \<noteq> [] \<and> (\<exists>t. countRealTypes [Some (VBool True)] = RTable t)"
  using countRealTypes_empty [of "[Some (VBool True)]"] by simp

text \<open>
  The table is empty when the array has holes only, as \<^verbatim>\<open>new Array(1)\<close> has: the length
  is 1 and \<^verbatim>\<open>forEach\<close> visits nothing.
\<close>

lemma countRealTypes_hole: "countRealTypes [None] = RTable []"
  by (simp add: countRealTypes_def Let_def getRealTypesOfItems_def Array_map_def
      Object_entries_def)

subsection \<open>The order of the rows\<close>

text \<open>
  Claim C2.  The specification expects the rows sorted ascending by label.
  \<open>countRealTypes\<close> of \<^verbatim>\<open>src/index.ts\<close> returns the entries in the order the labels
  first occur; on the array of the repository's test \<^emph>\<open>Counted unique types are sorted\<close>
  the labels come out as \<^verbatim>\<open>object\<close>, \<^verbatim>\<open>null\<close>, \<^verbatim>\<open>boolean\<close>, which is not ascending.
\<close>

theorem countRealTypes_unsorted:
  "countRealTypes
     [Some (VObj Plain []), Some VNull, Some (VBool True), Some (VBool True), Some (VBool False)]
     = RTable [(''object'', 1), (''null'', 1), (''boolean'', 3)] \<and>
   \<not> sorted (map fst [(''object'', 1::nat), (''null'', 1), (''boolean'', 3)])"
  by (simp add: countRealTypes_def Let_def getRealTypesOfItems_def getRealType_def
      Array_map_def count_step_def nullish_def Object_entries_def less_eq_char_def)

text \<open>
  That test passes all the same, because \<open>areEqual\<close> sorts the two arrays it is given
  before it compares them.
\<close>

lemma repository_test_passes:
  "areEqual
     (result_value (countRealTypes
        [Some (VObj Plain []), Some VNull, Some (VBool True), Some (VBool True),
         Some (VBool False)]))
     (VArr [Some (VArr [Some (VStr ''boolean''), Some (VNum (Finite 3))]),
            Some (VArr [Some (VStr ''null''), Some (VNum (Finite 1))]),
            Some (VArr [Some (VStr ''object''), Some (VNum (Finite 1))])]) = Inr True"
  by (simp add: countRealTypes_def Let_def getRealTypesOfItems_def getRealType_def
      Array_map_def count_step_def nullish_def Object_entries_def entry_value_def
      areEqual.simps Array_sort_def text_of_def int_text_def dec.simps read_index_def
      at_index_def value_of_def Array_iterate_id)

text \<open>
  The older file sorts.  Sorting the rows by their text is what \<^verbatim>\<open>Array.prototype.sort\<close>
  does on the arrays of label and count.
\<close>

lemma insort_key_map:
  "insort_key g (f x) (map f xs) = map f (insort_key (\<lambda>y. g (f y)) x xs)"
  by (induction xs) simp_all

lemma sort_key_map: "sort_key g (map f xs) = map f (sort_key (\<lambda>y. g (f y)) xs)"
  by (induction xs) (simp_all add: insort_key_map)

lemma ToString_entry_value: "ToString (entry_value e) = Inr (entry_text e)"
  by (simp add: entry_value_def entry_text_def)

lemma text_of_entry_value: "text_of (entry_value e) = entry_text e"
  by (simp add: text_of_def ToString_entry_value)

lemma sort_key_short: "length xs < 2 \<Longrightarrow> sort_key f xs = xs"
  by (cases xs rule: list.exhaust [case_product list.exhaust]) auto

lemma entries_sort_is_Array_sort:
  "Array_sort (map entry_value entries) = Inr (map entry_value (entries_sort entries))"
proof -
  have d: "filter (\<lambda>v. v \<noteq> VUndefined) (map entry_value entries) = map entry_value entries"
    by (induction entries) (simp_all add: entry_value_def)
  have u: "filter (\<lambda>v. v = VUndefined) (map entry_value entries) = []"
    by (induction entries) (simp_all add: entry_value_def)
  have e: "\<not> list_ex (\<lambda>v. ToString v = Inl TypeError) (map entry_value entries)"
    by (simp add: list_ex_iff ToString_entry_value)
  have s: "sort_key text_of (map entry_value entries) = map entry_value (entries_sort entries)"
    by (simp add: sort_key_map text_of_entry_value entries_sort_def)
  show ?thesis
  proof (cases "length entries < 2")
    case True
    then have "entries_sort entries = entries"
      unfolding entries_sort_def by (rule sort_key_short)
    with True show ?thesis by (simp add: Array_sort_def d u)
  next
    case False
    then show ?thesis by (simp add: Array_sort_def d u e s)
  qed
qed

text \<open>
  No label is a prefix of another, so the order of two rows by text is the order of
  their labels, and the table of the older file is sorted ascending by label.
\<close>

lemma diverge_append_less:
  "diverge l1 l2 \<Longrightarrow> (l1 @ x < l2 @ y \<longleftrightarrow> l1 < l2) \<and> l1 @ x \<noteq> l2 @ y"
  by (induction l1 l2 rule: diverge.induct) auto

lemma labels_diverge:
  "\<forall>a\<in>set labels. \<forall>b\<in>set labels. a \<noteq> b \<longrightarrow> diverge a b"
  by (simp add: labels_def)

lemma entry_text_le:
  assumes "fst e1 \<in> set labels" and "fst e2 \<in> set labels"
    and "entry_text e1 \<le> entry_text e2"
  shows "fst e1 \<le> fst e2"
proof (cases "fst e1 = fst e2")
  case True
  then show ?thesis by simp
next
  case False
  with assms(1,2) labels_diverge have "diverge (fst e1) (fst e2)" by blast
  from diverge_append_less [OF this] assms(3) show ?thesis
    unfolding entry_text_def by (metis less_le)
qed

lemma entries_sort_sorted:
  assumes "fst ` set t \<subseteq> set labels"
  shows "sorted (map fst (entries_sort t))"
proof -
  have "sorted (map entry_text (entries_sort t))"
    unfolding entries_sort_def by (rule sorted_sort_key)
  then have "sorted_wrt (\<lambda>a b. entry_text a \<le> entry_text b) (entries_sort t)"
    by (simp add: sorted_map)
  moreover have "fst a \<le> fst b"
    if "a \<in> set (entries_sort t)" "b \<in> set (entries_sort t)" "entry_text a \<le> entry_text b"
    for a b
    using that assms by (intro entry_text_le) (auto simp: entries_sort_def)
  ultimately have "sorted_wrt (\<lambda>a b. fst a \<le> fst b) (entries_sort t)"
    by (rule sorted_wrt_mono_rel [rotated])
  then show ?thesis by (simp add: sorted_map)
qed

lemma tally_labels:
  "fst ` set (foldl count_step [] (present (getRealTypesOfItems arr))) \<subseteq> set labels"
  using tally_keys [of "[]" "present (getRealTypesOfItems arr)"]
  by (auto simp: getRealTypesOfItems_def present_Array_map getRealType_label)

lemma countRealTypes_part_000_table:
  assumes "arr \<noteq> []"
  shows "\<exists>t. countRealTypes_part_000 arr = RTable t \<and>
             sum_list (map snd t) + holes arr = length arr \<and>
             distinct (map fst t) \<and> sorted (map fst t)"
proof -
  let ?t = "foldl count_step [] (present (getRealTypesOfItems arr))"
  from assms have r: "countRealTypes_part_000 arr = RTable (entries_sort ?t)"
    by (simp add: countRealTypes_part_000_def Let_def Object_entries_def)
  have m: "mset (entries_sort ?t) = mset ?t" by (simp add: entries_sort_def)
  have "sum_list (map snd (entries_sort ?t)) = sum_list (map snd ?t)"
    using m by (metis mset_map sum_mset_sum_list)
  then have s: "sum_list (map snd (entries_sort ?t)) + holes arr = length arr"
    by (simp add: tally_sum getRealTypesOfItems_def present_Array_map length_present)
  have "distinct (map fst ?t)" by (rule tally_distinct) simp
  then have d: "distinct (map fst (entries_sort ?t))"
    using m by (metis mset_map mset_eq_imp_distinct_iff)
  have "sorted (map fst (entries_sort ?t))"
    using tally_labels by (rule entries_sort_sorted)
  with r s d show ?thesis by blast
qed

text \<open>
  Sorting leaves a table as it is exactly when its labels are already ascending.
\<close>

lemma entry_text_less:
  assumes "fst e1 \<in> set labels" and "fst e2 \<in> set labels" and "fst e1 < fst e2"
  shows "entry_text e1 < entry_text e2"
proof -
  from assms(3) have "fst e1 \<noteq> fst e2" by simp
  with assms(1,2) labels_diverge have "diverge (fst e1) (fst e2)" by blast
  from diverge_append_less [OF this] assms(3) show ?thesis
    unfolding entry_text_def by blast
qed

lemma entries_sort_fixed:
  assumes "fst ` set t \<subseteq> set labels" and "distinct (map fst t)"
  shows "entries_sort t = t \<longleftrightarrow> sorted (map fst t)"
proof
  assume "entries_sort t = t"
  with entries_sort_sorted [OF assms(1)] show "sorted (map fst t)" by simp
next
  assume "sorted (map fst t)"
  with assms(2) have "sorted_wrt (<) (map fst t)"
    by (simp add: strict_sorted_iff)
  then have "sorted_wrt (\<lambda>a b. fst a < fst b) t"
    by (simp add: sorted_wrt_map)
  moreover have "entry_text a \<le> entry_text b"
    if "a \<in> set t" "b \<in> set t" "fst a < fst b" for a b
    using entry_text_less [of a b] that assms(1) by (simp add: image_subset_iff less_imp_le)
  ultimately have "sorted_wrt (\<lambda>a b. entry_text a \<le> entry_text b) t"
    by (rule sorted_wrt_mono_rel [rotated])
  then have "sorted (map entry_text t)" by (simp add: sorted_map)
  then show "entries_sort t = t"
    unfolding entries_sort_def by (rule sort_key_id_if_sorted)
qed

subsection \<open>Uniqueness and counts\<close>

lemma Set_add_fold:
  "distinct acc \<Longrightarrow> distinct (foldl Set_add acc xs) \<and> set (foldl Set_add acc xs) = set acc \<union> set xs"
  by (induction xs arbitrary: acc) (auto simp: Set_add_def)

lemma new_Set_size: "length (new_Set xs) = card (set xs)"
proof -
  have "distinct (foldl Set_add [] xs)" and "set (foldl Set_add [] xs) = set xs"
    using Set_add_fold [of "[]" xs] by simp_all
  then show ?thesis unfolding new_Set_def by (metis distinct_card)
qed

lemma unique_iff_distinct:
  "everyItemHasAUniqueRealType arr \<longleftrightarrow> distinct (getRealTypesOfItems arr)"
  unfolding everyItemHasAUniqueRealType_def Let_def new_Set_size Array_iterate_id
  by (metis card_distinct distinct_card)

text \<open>
  The slots of an array are pairwise different exactly when its elements are and it has
  at most one hole: two holes both read \<^verbatim>\<open>undefined\<close>.
\<close>

lemma holes_0: "holes xs = 0 \<longleftrightarrow> None \<notin> set xs"
  by (induction xs) (auto simp: holes_def)

lemma distinct_slots: "distinct xs \<longleftrightarrow> distinct (present xs) \<and> holes xs \<le> 1"
proof (induction xs rule: present.induct)
  case 1
  show ?case by (simp add: holes_def)
next
  case (2 xs)
  have h: "holes (None # xs) = Suc (holes xs)" by (simp add: holes_def)
  show ?case
  proof (cases "holes xs = 0")
    case True
    with 2 h holes_0 [of xs] show ?thesis by simp
  next
    case False
    with h holes_0 [of xs] show ?thesis by simp
  qed
next
  case (3 v xs)
  have h: "holes (Some v # xs) = holes xs" by (simp add: holes_def)
  from 3 h show ?case by (simp add: set_present)
qed

lemma distinct_count_list: "distinct xs \<longleftrightarrow> (\<forall>x\<in>set xs. count_list xs x = 1)"
  unfolding distinct_count_atmost_1 count_mset by auto

lemma rows_one_iff_distinct:
  "(\<forall>row\<in>set (foldl count_step [] ls). snd row = 1) \<longleftrightarrow> distinct ls"
proof
  assume a: "\<forall>row\<in>set (foldl count_step [] ls). snd row = 1"
  have "count_list ls l = 1" if "l \<in> set ls" for l
  proof -
    from tally_has_row [OF that] a have "snd (l, count_list ls l) = 1" by blast
    then show ?thesis by simp
  qed
  then show "distinct ls" unfolding distinct_count_list by blast
next
  assume d: "distinct ls"
  show "\<forall>row\<in>set (foldl count_step [] ls). snd row = 1"
  proof
    fix row assume "row \<in> set (foldl count_step [] ls)"
    then have "fst row \<in> set ls \<and> snd row = count_list ls (fst row)"
      using tally_rows [of "fst row" "snd row" ls] by simp
    with d show "snd row = 1" unfolding distinct_count_list by metis
  qed
qed

text \<open>
  Claim C7 says that \<open>everyItemHasAUniqueRealType\<close> answers true exactly when every
  row of the table that \<open>countRealTypes\<close> returns has count 1, for every array.  On
  \<^verbatim>\<open>new Array(2)\<close>, an array of two holes, it does not: \<^verbatim>\<open>map\<close> keeps the two holes, so
  the length 2 is compared with the size 1 of the set that holds \<^verbatim>\<open>undefined\<close>, and
  the predicate answers false; \<^verbatim>\<open>forEach\<close> skips the holes, so the table has no row at
  all, and every row of it has count 1.
\<close>

theorem unique_counts_two_holes:
  "everyItemHasAUniqueRealType [None, None] = False \<and> countRealTypes [None, None] = RTable []"
  by (simp add: everyItemHasAUniqueRealType_def countRealTypes_def Let_def
      getRealTypesOfItems_def Array_map_def Array_iterate_def Array_get_def new_Set_def
      Set_add_def Object_entries_def)

text \<open>
  Claim C7, amended.  \<open>everyItemHasAUniqueRealType\<close> answers true exactly when every
  row of the table that \<open>countRealTypes\<close> returns has count 1 and the array has at
  most one hole.  On the empty array no table is returned, there is no row, and the
  predicate is true.
\<close>

theorem unique_iff_all_counts_one:
  "everyItemHasAUniqueRealType arr \<longleftrightarrow>
   (\<forall>t. countRealTypes arr = RTable t \<longrightarrow> (\<forall>row\<in>set t. snd row = 1)) \<and> holes arr \<le> 1"
proof (cases "arr = []")
  case True
  then show ?thesis
    by (simp add: unique_iff_distinct countRealTypes_def getRealTypesOfItems_def
        Array_map_def holes_def)
next
  case False
  let ?ls = "present (getRealTypesOfItems arr)"
  from False have "countRealTypes arr = RTable (foldl count_step [] ?ls)"
    by (simp add: countRealTypes_def Let_def Object_entries_def)
  then have "(\<forall>t. countRealTypes arr = RTable t \<longrightarrow> (\<forall>row\<in>set t. snd row = 1))
               \<longleftrightarrow> distinct ?ls"
    by (simp only: rows_one_iff_distinct count_result.inject simp_thms)
  moreover have "holes (getRealTypesOfItems arr) = holes arr"
    by (simp add: getRealTypesOfItems_def holes_Array_map)
  ultimately show ?thesis
    using distinct_slots [of "getRealTypesOfItems arr"] by (simp add: unique_iff_distinct)
qed

theorem unique_iff_all_counts_one_witness:
  "countRealTypes [Some (VBool True), Some (VNum (Finite 123)), Some (VStr ''123'')]
     = RTable [(''boolean'', 1), (''number'', 1), (''string'', 1)] \<and>
   holes [Some (VBool True), Some (VNum (Finite 123)), Some (VStr ''123'')] = 0 \<and>
   everyItemHasAUniqueRealType
     [Some (VBool True), Some (VNum (Finite 123)), Some (VStr ''123'')] \<and>
   countRealTypes [Some (VBool True), Some (VNum (Finite 123)), Some (VBool False)]
     = RTable [(''boolean'', 2), (''number'', 1)] \<and>
   \<not> everyItemHasAUniqueRealType
     [Some (VBool True), Some (VNum (Finite 123)), Some (VBool False)] \<and>
   countRealTypes [None, Some (VBool True)] = RTable [(''boolean'', 1)] \<and>
   holes [None, Some (VBool True)] = 1 \<and>
   everyItemHasAUniqueRealType [None, Some (VBool True)]"
proof -
  have t1: "countRealTypes [Some (VBool True), Some (VNum (Finite 123)), Some (VStr ''123'')]
     = RTable [(''boolean'', 1), (''number'', 1), (''string'', 1)]"
    by (simp add: countRealTypes_def Let_def getRealTypesOfItems_def getRealType_def
      Array_map_def count_step_def nullish_def Object_entries_def)
  have t2: "countRealTypes [Some (VBool True), Some (VNum (Finite 123)), Some (VBool False)]
     = RTable [(''boolean'', 2), (''number'', 1)]"
    by (simp add: countRealTypes_def Let_def getRealTypesOfItems_def getRealType_def
      Array_map_def count_step_def nullish_def Object_entries_def)
  have t3: "countRealTypes [None, Some (VBool True)] = RTable [(''boolean'', 1)]"
    by (simp add: countRealTypes_def Let_def getRealTypesOfItems_def getRealType_def
      Array_map_def count_step_def nullish_def Object_entries_def)
  show ?thesis
    using unique_iff_all_counts_one
        [of "[Some (VBool True), Some (VNum (Finite 123)), Some (VStr ''123'')]"]
      unique_iff_all_counts_one
        [of "[Some (VBool True), Some (VNum (Finite 123)), Some (VBool False)]"]
      unique_iff_all_counts_one [of "[None, Some (VBool True)]"]
    by (simp add: t1 t2 t3 holes_def)
qed

subsection \<open>The two files compared\<close>

text \<open>
  Claim C9 says that \<open>countRealTypes\<close> of \<^verbatim>\<open>src/index.ts\<close> and of
  \<^verbatim>\<open>src/unnamed/part_000\<close> return the same result on every input.  They do not: on
  the empty array one returns \<^verbatim>\<open>null\<close> and the other 0, and on the array of an object
  and \<^verbatim>\<open>null\<close> the rows come in different orders.
\<close>

theorem countRealTypes_versions_differ:
  "countRealTypes [] \<noteq> countRealTypes_part_000 [] \<and>
   countRealTypes [Some (VObj Plain []), Some VNull]
     \<noteq> countRealTypes_part_000 [Some (VObj Plain []), Some VNull]"
  by (simp add: countRealTypes_def countRealTypes_part_000_def Let_def getRealTypesOfItems_def
      getRealType_def Array_map_def count_step_def nullish_def Object_entries_def
      entries_sort_def entry_text_def int_text_def dec.simps)

text \<open>
  Claim C9, amended.  On the empty array \<^verbatim>\<open>src/index.ts\<close> returns \<^verbatim>\<open>null\<close> and the
  older file returns 0.  On every non-empty array both return a table, and the table of
  the older file is the table of \<^verbatim>\<open>src/index.ts\<close> rearranged by the default sort: the
  two tables hold the same rows, and the two results are equal exactly when the labels
  of the table of \<^verbatim>\<open>src/index.ts\<close> are in ascending order.
\<close>

theorem countRealTypes_versions:
  "countRealTypes [] = RNull \<and> countRealTypes_part_000 [] = RNumber 0 \<and>
   (arr \<noteq> [] \<longrightarrow>
     (\<exists>t. countRealTypes arr = RTable t \<and>
          countRealTypes_part_000 arr = RTable (entries_sort t) \<and>
          mset (entries_sort t) = mset t \<and>
          (countRealTypes_part_000 arr = countRealTypes arr \<longleftrightarrow> sorted (map fst t))))"
proof -
  let ?t = "foldl count_step [] (present (getRealTypesOfItems arr))"
  have d: "distinct (map fst ?t)" by (rule tally_distinct) simp
  have "entries_sort ?t = ?t \<longleftrightarrow> sorted (map fst ?t)"
    using tally_labels d by (rule entries_sort_fixed)
  then show ?thesis
    by (simp add: countRealTypes_def countRealTypes_part_000_def Let_def Object_entries_def
        entries_sort_def)
qed

theorem countRealTypes_versions_witness:
  "[Some (VObj Plain []), Some VNull] \<noteq> [] \<and>
   countRealTypes [Some (VObj Plain []), Some VNull]
     = RTable [(''object'', 1), (''null'', 1)] \<and>
   countRealTypes_part_000 [Some (VObj Plain []), Some VNull]
     = RTable [(''null'', 1), (''object'', 1)]"
  using countRealTypes_versions [of "[Some (VObj Plain []), Some VNull]"]
  by (simp add: countRealTypes_def Let_def getRealTypesOfItems_def getRealType_def
      Array_map_def count_step_def nullish_def Object_entries_def entries_sort_def
      entry_text_def int_text_def dec.simps)

section \<open>The comparator\<close>

text \<open>
  Unless both arguments are objects other than \<^verbatim>\<open>null\<close>, the comparator is \<^verbatim>\<open>===\<close>;
  so \<^verbatim>\<open>===\<close> is never asked about two objects.
\<close>

lemma areEqual_strict_equals:
  "\<not> (typeof a = ''object'' \<and> typeof b = ''object'' \<and> a \<noteq> VNull \<and> b \<noteq> VNull)
   \<Longrightarrow> areEqual a b = Inr (strict_equals a b)"
  by (subst areEqual.simps) (simp only: if_False)

subsection \<open>Arrays\<close>

text \<open>
  Claim C1.  The specification expects \<^verbatim>\<open>areEqual([1,2], [1,2,3])\<close> to be false.  The
  comparator walks the positions of its first argument only and never compares the
  lengths, so on this input it answers true; with the arguments exchanged it answers
  false.
\<close>

theorem areEqual_prefix_array:
  "areEqual (VArr [Some (VNum (Finite 1)), Some (VNum (Finite 2))])
            (VArr [Some (VNum (Finite 1)), Some (VNum (Finite 2)), Some (VNum (Finite 3))])
     = Inr True \<and>
   areEqual (VArr [Some (VNum (Finite 1)), Some (VNum (Finite 2)), Some (VNum (Finite 3))])
            (VArr [Some (VNum (Finite 1)), Some (VNum (Finite 2))])
     = Inr False"
  by (simp add: areEqual.simps Array_sort_def text_of_def int_text_def dec.simps read_index_def
      at_index_def value_of_def Array_iterate_id)

text \<open>
  Claim C4.  The specification expects an array never to be equal to a value that is not
  an array.  When only one of two objects is an array the comparator goes on to the
  comparison of properties, so the empty array is reported equal to the empty object,
  and an array equal to the object that has its elements under the same indices.
\<close>

theorem areEqual_array_object:
  "areEqual (VArr []) (VObj Plain []) = Inr True \<and>
   areEqual (VArr [Some (VNum (Finite 1))]) (VObj Plain [(''0'', VNum (Finite 1))]) = Inr True"
  by (simp add: areEqual.simps Object_keys_def get_prop_def dec.simps)

text \<open>
  Against a value that is not an object, or against \<^verbatim>\<open>null\<close>, an array is compared
  with \<^verbatim>\<open>===\<close> and is different.
\<close>

lemma areEqual_array_non_object:
  "typeof b \<noteq> ''object'' \<or> b = VNull \<Longrightarrow> areEqual (VArr xs) b = Inr False"
  by (subst areEqual.simps) auto

subsection \<open>Objects\<close>

text \<open>
  \<^verbatim>\<open>every\<close> returns a result when each call does, and \<^verbatim>\<open>false\<close> when moreover one
  call answers \<^verbatim>\<open>false\<close>.
\<close>

lemma every_total:
  "(\<And>x. x \<in> set xs \<Longrightarrow> \<exists>r. f x = Inr r) \<Longrightarrow> \<exists>r. every f xs = Inr r"
proof (induction xs)
  case Nil
  show ?case by auto
next
  case (Cons y ys)
  from Cons.prems [of y] obtain r where r: "f y = Inr r" by auto
  from Cons.IH Cons.prems obtain r' where "every f ys = Inr r'" by auto
  with r show ?case by (cases r) auto
qed

lemma every_False:
  "(\<And>y. y \<in> set xs \<Longrightarrow> \<exists>r. f y = Inr r) \<Longrightarrow> x \<in> set xs \<Longrightarrow> f x = Inr False
   \<Longrightarrow> every f xs = Inr False"
proof (induction xs)
  case Nil
  then show ?case by simp
next
  case (Cons y ys)
  from Cons.prems(1) [of y] obtain r where r: "f y = Inr r" by auto
  show ?case
  proof (cases r)
    case False
    with r show ?thesis by simp
  next
    case True
    with r Cons.prems(3) have "x \<noteq> y" by auto
    with Cons.prems(2) have "x \<in> set ys" by simp
    with Cons.IH Cons.prems(1,3) have "every f ys = Inr False" by simp
    with r True show ?thesis by simp
  qed
qed

lemma every_False_iff:
  assumes "\<And>y. y \<in> set xs \<Longrightarrow> \<exists>r. f y = Inr r"
  shows "every f xs = Inr False \<longleftrightarrow> (\<exists>x\<in>set xs. f x = Inr False)"
proof
  assume "\<exists>x\<in>set xs. f x = Inr False"
  then obtain x where "x \<in> set xs" and "f x = Inr False" by blast
  with assms show "every f xs = Inr False" by (intro every_False [where x = x]) auto
next
  assume "every f xs = Inr False"
  then show "\<exists>x\<in>set xs. f x = Inr False"
  proof (induction xs)
    case Nil
    then show ?case by simp
  next
    case (Cons y ys)
    then show ?case by (auto split: sum.splits if_splits)
  qed
qed

text \<open>
  Against the empty object the comparator never throws: what it reads from the empty
  object is \<^verbatim>\<open>undefined\<close>, a built-in function or \<^verbatim>\<open>Object.prototype\<close>, and none of
  them is an array to sort.
\<close>

lemma Object_prototype_inherited: "inherited_value (Object_prototype k)"
  by (simp add: Object_prototype_def inherited_value_def split: option.splits)

lemma Object_prototype_cases:
  "k \<noteq> ''__proto__'' \<Longrightarrow>
   Object_prototype k = VUndefined \<or> (\<exists>f. Object_prototype k = VFunction f)"
  by (simp add: Object_prototype_def split: option.splits)

lemma get_prop_Nil: "get_prop [] k = Object_prototype k"
  by (simp add: get_prop_def)

lemma areEqual_inherited_total:
  "inherited_value b \<Longrightarrow> \<exists>r. areEqual a b = Inr r"
proof (induction a b rule: areEqual.induct)
  case (1 a b)
  show ?case
  proof (cases "typeof a = ''object'' \<and> typeof b = ''object'' \<and> a \<noteq> VNull \<and> b \<noteq> VNull")
    case False
    then show ?thesis by (subst areEqual.simps) auto
  next
    case True
    with "1.prems" have b: "b = VObj Plain []" by (auto simp: inherited_value_def)
    have na: "\<not> (Array_isArray a \<and> Array_isArray b)" using b by simp
    have "\<exists>r. areEqual (get_prop (spread a) k) (get_prop (spread b) k) = Inr r"
      if "k \<in> set (Object_keys (spread a))" for k
      using "1.IH"(2) [OF True na refl refl that] b
      by (simp add: get_prop_Nil Object_prototype_inherited)
    then have "\<exists>r. every (\<lambda>k. areEqual (get_prop (spread a) k) (get_prop (spread b) k))
                 (Object_keys (spread a)) = Inr r"
      by (rule every_total)
    with True na show ?thesis by (subst areEqual.simps) (simp add: Let_def b)
  qed
qed

text \<open>
  \<^verbatim>\<open>===\<close> against \<^verbatim>\<open>undefined\<close> or against a function holds of that very value only.
\<close>

lemma strict_equals_primitive:
  assumes "p = VUndefined \<or> (\<exists>f. p = VFunction f)"
  shows "strict_equals v p \<longleftrightarrow> v = p"
proof (cases v)
  case (VNum n)
  with assms show ?thesis by (cases n) auto
qed (use assms in auto)

text \<open>
  Claim C10 says that \<^verbatim>\<open>areEqual(b, {})\<close> is false whenever the object \<^verbatim>\<open>b\<close> has a
  key bound to a value other than \<^verbatim>\<open>undefined\<close>.  The comparator reads the key from the
  empty object with \<^verbatim>\<open>newB[value]\<close>, which also finds what every object inherits: the
  object whose only property is \<^verbatim>\<open>constructor\<close>, bound to \<^verbatim>\<open>Object\<close>, is reported
  equal to the empty object.
\<close>

theorem areEqual_inherited_key:
  "''constructor'' \<in> set (Object_keys (spread
      (VObj Plain [(''constructor'', VFunction (Builtin Object_function))]))) \<and>
   get_prop (spread (VObj Plain [(''constructor'', VFunction (Builtin Object_function))]))
     ''constructor'' \<noteq> VUndefined \<and>
   areEqual (VObj Plain [(''constructor'', VFunction (Builtin Object_function))]) (VObj Plain [])
     = Inr True"
  by (simp add: areEqual.simps Object_keys_def get_prop_def Object_prototype_def
      Object_prototype_functions_def)

text \<open>
  Claim C10, amended.  For every object \<^verbatim>\<open>b\<close> that is not \<^verbatim>\<open>null\<close> and not an array,
  \<^verbatim>\<open>areEqual({}, b)\<close> is true.  \<^verbatim>\<open>areEqual(b, {})\<close> is false exactly when \<^verbatim>\<open>b\<close> has a
  key, other than \<^verbatim>\<open>__proto__\<close>, bound to a value that is not the one the empty object
  reads under that key (\<^verbatim>\<open>undefined\<close> for a name it does not inherit, the inherited
  built-in function otherwise), or has the key \<^verbatim>\<open>__proto__\<close> bound to a value that the
  comparator does not report equal to the empty object; and it is true in every other
  case.  So it is false whenever \<^verbatim>\<open>b\<close> has a key that is not an inherited name and is
  bound to a value other than \<^verbatim>\<open>undefined\<close>, and also when an inherited name such as
  \<^verbatim>\<open>constructor\<close> is bound to anything but the inherited function.
\<close>

theorem areEqual_directional:
  assumes "typeof b = ''object''" and "b \<noteq> VNull" and "\<not> Array_isArray b"
  shows "areEqual (VObj Plain []) b = Inr True \<and>
         (areEqual b (VObj Plain []) = Inr False \<longleftrightarrow>
            (\<exists>k\<in>set (Object_keys (spread b)).
               if k = ''__proto__''
               then areEqual (get_prop (spread b) k) (VObj Plain []) = Inr False
               else get_prop (spread b) k \<noteq> Object_prototype k)) \<and>
         (areEqual b (VObj Plain []) \<noteq> Inr False \<longrightarrow> areEqual b (VObj Plain []) = Inr True)"
proof -
  let ?f = "\<lambda>k. areEqual (get_prop (spread b) k) (get_prop [] k)"
  let ?keys = "Object_keys (spread b)"
  from assms have first: "areEqual (VObj Plain []) b = Inr True"
    by (subst areEqual.simps) (simp add: Object_keys_def)
  from assms have unfold: "areEqual b (VObj Plain []) = every ?f ?keys"
    by (subst areEqual.simps) (simp add: Let_def)
  have total: "\<exists>r. ?f y = Inr r" for y
    by (simp add: get_prop_Nil areEqual_inherited_total Object_prototype_inherited)
  have key: "?f k = Inr False \<longleftrightarrow>
      (if k = ''__proto__'' then areEqual (get_prop (spread b) k) (VObj Plain []) = Inr False
       else get_prop (spread b) k \<noteq> Object_prototype k)" for k
  proof (cases "k = ''__proto__''")
    case True
    then show ?thesis
      by (simp add: get_prop_Nil Object_prototype_def Object_prototype_functions_def)
  next
    case False
    from Object_prototype_cases [OF False]
    have p: "Object_prototype k = VUndefined \<or> (\<exists>f. Object_prototype k = VFunction f)" .
    then have "\<not> (typeof (get_prop (spread b) k) = ''object'' \<and>
                   typeof (Object_prototype k) = ''object'' \<and>
                   get_prop (spread b) k \<noteq> VNull \<and> Object_prototype k \<noteq> VNull)"
      by auto
    from areEqual_strict_equals [OF this]
    have "?f k = Inr (strict_equals (get_prop (spread b) k) (Object_prototype k))"
      by (simp add: get_prop_Nil)
    with strict_equals_primitive [OF p] False show ?thesis by simp
  qed
  have "every ?f ?keys = Inr False \<longleftrightarrow> (\<exists>k\<in>set ?keys. ?f k = Inr False)"
    using total by (intro every_False_iff) auto
  with unfold key have second: "areEqual b (VObj Plain []) = Inr False \<longleftrightarrow>
      (\<exists>k\<in>set ?keys.
         if k = ''__proto__''
         then areEqual (get_prop (spread b) k) (VObj Plain []) = Inr False
         else get_prop (spread b) k \<noteq> Object_prototype k)"
    by simp
  from total have "\<exists>r. every ?f ?keys = Inr r" by (intro every_total) auto
  with unfold have third:
    "areEqual b (VObj Plain []) \<noteq> Inr False \<longrightarrow> areEqual b (VObj Plain []) = Inr True"
    by auto
  from first second third show ?thesis by blast
qed

theorem areEqual_directional_witness:
  "typeof (VObj Plain [(''a'', VNum (Finite 1))]) = ''object'' \<and>
   areEqual (VObj Plain []) (VObj Plain [(''a'', VNum (Finite 1))]) = Inr True \<and>
   areEqual (VObj Plain [(''a'', VNum (Finite 1))]) (VObj Plain []) = Inr False \<and>
   typeof (VObj Plain [(''constructor'', VNum (Finite 1))]) = ''object'' \<and>
   areEqual (VObj Plain []) (VObj Plain [(''constructor'', VNum (Finite 1))]) = Inr True \<and>
   areEqual (VObj Plain [(''constructor'', VNum (Finite 1))]) (VObj Plain []) = Inr False \<and>
   areEqual (VObj Plain [(''constructor'', VFunction (Builtin Object_function))]) (VObj Plain [])
     = Inr True"
  using areEqual_directional [of "VObj Plain [(''a'', VNum (Finite 1))]"]
    areEqual_directional [of "VObj Plain [(''constructor'', VNum (Finite 1))]"]
    areEqual_directional [of "VObj Plain [(''constructor'', VFunction (Builtin Object_function))]"]
  by (simp add: Object_keys_def Object_prototype_def Object_prototype_functions_def get_prop_def)

end
